theory Spec2Isabelle
  imports Main "HOL-Library.Word"
begin

unbundle bit_operations_syntax

section \<open>The DNS client of client.go\<close>

text \<open>
  A shallow embedding of \<^verbatim>\<open>client.go\<close>: the framed connection (\<^verbatim>\<open>Conn.Read\<close>,
  \<^verbatim>\<open>Conn.Write\<close>), the message layer (\<^verbatim>\<open>Conn.ReadMsg\<close>, \<^verbatim>\<open>Conn.WriteMsg\<close>) and the
  client (\<^verbatim>\<open>Client.exchange\<close>, \<^verbatim>\<open>Client.Exchange\<close>).

  Go values are modelled as follows. A \<^verbatim>\<open>[]byte\<close> is a list of 8-bit words; an \<^verbatim>\<open>int\<close>
  that counts bytes is a \<open>nat\<close>; a \<^verbatim>\<open>uint16\<close> is a 16-bit word; a \<^verbatim>\<open>time.Duration\<close> and a
  \<^verbatim>\<open>time.Time\<close> are integers (nanoseconds); a \<^verbatim>\<open>map[string]string\<close> is a partial
  function; an \<^verbatim>\<open>error\<close> result is an \<open>error option\<close> (\<open>None\<close> is \<^verbatim>\<open>nil\<close>); a \<^verbatim>\<open>*Msg\<close>
  is an address into an explicit store of messages (\<open>None\<close> is \<^verbatim>\<open>nil\<close>); a run-time
  panic is the left summand of a sum type.
\<close>

subsection \<open>Bytes, errors and panics\<close>

type_synonym byte = "8 word"
type_synonym uint16 = "16 word"

text \<open>
  The errors the file returns by name (\<^verbatim>\<open>ErrConnEmpty\<close>, \<^verbatim>\<open>io.ErrShortBuffer\<close>,
  \<^verbatim>\<open>ErrShortRead\<close>, \<^verbatim>\<open>ErrSecret\<close>), and the errors that come back from its collaborators:
  the network (\<open>NetError\<close>), the message codec (\<open>CodecError\<close>) and the TSIG routines
  (\<open>TsigError\<close>), each with the collaborator's text.
\<close>

datatype error =
    ErrConnEmpty
  | ErrShortBuffer
  | ErrShortRead
  | ErrSecret
  | NetError string
  | CodecError string
  | TsigError string

text \<open>The run-time panics the file can raise.\<close>

datatype panic =
    IndexOutOfRange
  | NilInterfaceConversion
  | SliceBoundsOutOfRange
  | NilPointerDereference

subsection \<open>The transports\<close>

text \<open>
  \<^verbatim>\<open>net.TCPConn\<close> and \<^verbatim>\<open>net.UDPConn\<close> belong to Go's standard library. They are modelled
  as an environment the code talks to. A TCP connection holds the bytes the peer has sent
  and not yet delivered (\<open>incoming\<close>), the bytes written so far (\<open>wire\<close>), and for reads
  and for writes a script of what the next calls do: \<open>Part k\<close> transfers at most \<open>k\<close>
  bytes and reports no error, \<open>Broken k e\<close> transfers at most \<open>k\<close> bytes and reports the
  error \<open>e\<close>. When a script is used up, a write takes everything, and a read delivers
  what fits, or fails with end of file when nothing is left. Theorems quantify over
  the scripts, that is over every way of splitting the stream into partial transfers.
\<close>

datatype io_step = Part nat | Broken nat string

record TCPConn =
  incoming :: "byte list"
  rsteps :: "io_step list"
  wire :: "byte list"
  wsteps :: "io_step list"

definition tcp_Read :: "TCPConn \<Rightarrow> nat \<Rightarrow> byte list \<times> error option \<times> TCPConn" where
  "tcp_Read c k =
     (case rsteps c of
        [] \<Rightarrow>
          (if incoming c = [] then ([], Some (NetError ''EOF''), c)
           else (take k (incoming c), None, c\<lparr>incoming := drop k (incoming c)\<rparr>))
      | Part j # rest \<Rightarrow>
          (take (min j k) (incoming c), None,
           c\<lparr>incoming := drop (min j k) (incoming c), rsteps := rest\<rparr>)
      | Broken j e # rest \<Rightarrow>
          (take (min j k) (incoming c), Some (NetError e),
           c\<lparr>incoming := drop (min j k) (incoming c), rsteps := rest\<rparr>))"

definition tcp_Write :: "TCPConn \<Rightarrow> byte list \<Rightarrow> nat \<times> error option \<times> TCPConn" where
  "tcp_Write c bs =
     (case wsteps c of
        [] \<Rightarrow> (length bs, None, c\<lparr>wire := wire c @ bs\<rparr>)
      | Part j # rest \<Rightarrow>
          (min j (length bs), None,
           c\<lparr>wire := wire c @ take j bs, wsteps := rest\<rparr>)
      | Broken j e # rest \<Rightarrow>
          (min j (length bs), Some (NetError e),
           c\<lparr>wire := wire c @ take j bs, wsteps := rest\<rparr>))"

text \<open>
  A UDP socket holds the datagrams waiting to be received, each a datagram or the error
  the receive call reports instead, the datagrams sent, and for each coming send whether
  it fails. A receive into a buffer of \<open>k\<close> bytes keeps the first \<open>k\<close> bytes of the
  datagram.
\<close>

record UDPConn =
  datagrams :: "(string + byte list) list"
  sent :: "byte list list"
  sendfail :: "string option list"

definition udp_Read :: "UDPConn \<Rightarrow> nat \<Rightarrow> byte list \<times> error option \<times> UDPConn" where
  "udp_Read u k =
     (case datagrams u of
        [] \<Rightarrow> ([], Some (NetError ''i/o timeout''), u)
      | Inl e # rest \<Rightarrow> ([], Some (NetError e), u\<lparr>datagrams := rest\<rparr>)
      | Inr d # rest \<Rightarrow> (take k d, None, u\<lparr>datagrams := rest\<rparr>))"

definition udp_Write :: "UDPConn \<Rightarrow> byte list \<Rightarrow> nat \<times> error option \<times> UDPConn" where
  "udp_Write u bs =
     (case sendfail u of
        Some e # rest \<Rightarrow> (0, Some (NetError e), u\<lparr>sendfail := rest\<rparr>)
      | None # rest \<Rightarrow> (length bs, None, u\<lparr>sent := sent u @ [bs], sendfail := rest\<rparr>)
      | [] \<Rightarrow> (length bs, None, u\<lparr>sent := sent u @ [bs]\<rparr>))"

text \<open>
  The dynamic type of the \<^verbatim>\<open>net.Conn\<close> a connection holds. The code tells the two apart
  with a type assertion; a \<^verbatim>\<open>nil\<close> interface is \<open>None\<close> in the field below.
\<close>

datatype netconn = TCP TCPConn | UDP UDPConn

subsection \<open>The connection\<close>

text \<open>The struct \<^verbatim>\<open>Conn\<close>, lines 18 to 25; \<open>NetConn\<close> is its embedded \<^verbatim>\<open>net.Conn\<close>.\<close>

record Conn =
  NetConn :: "netconn option"
  UDPSize :: uint16
  TsigSecret :: "string \<rightharpoonup> string"
  rtt :: int
  t :: int
  tsigRequestMAC :: string

text \<open>
  Modelled from the spec: \<^verbatim>\<open>packUint16\<close> and \<^verbatim>\<open>unpackUint16\<close> are defined in another file
  of the package. The spec fixes what they compute: the length prefix is a 2-byte
  big-endian unsigned integer. \<^verbatim>\<open>unpackUint16\<close> also returns the offset after the two
  bytes, which the caller drops.
\<close>

definition packUint16 :: "uint16 \<Rightarrow> byte \<times> byte" where
  "packUint16 i = (ucast (drop_bit 8 i), ucast i)"

definition unpackUint16 :: "byte list \<Rightarrow> nat \<Rightarrow> uint16 \<times> nat" where
  "unpackUint16 msg off =
     (push_bit 8 (ucast (msg ! off)) OR ucast (msg ! (off + 1)), off + 2)"

text \<open>
  A read into the slice \<^verbatim>\<open>p[off:...]\<close> overwrites the buffer from \<open>off\<close> with the bytes
  delivered. The slices the code passes always lie inside the buffer.
\<close>

definition store :: "byte list \<Rightarrow> nat \<Rightarrow> byte list \<Rightarrow> byte list" where
  "store p off d = take off p @ d @ drop (off + length d) p"

subsection \<open>Write, lines 230 to 255\<close>

text \<open>
  The result is the byte count, the error and the connection after the call. On a
  connection whose \<^verbatim>\<open>net.Conn\<close> is \<^verbatim>\<open>nil\<close> the first type assertion (the form with
  \<^verbatim>\<open>ok\<close>) is false and the second one panics. The stream branch writes the frame, and
  when the first call took fewer bytes than the frame has, it writes the remainder
  once more (an \<^verbatim>\<open>if\<close>, not a loop).
\<close>

definition Write :: "Conn \<Rightarrow> byte list \<Rightarrow> panic + (nat \<times> error option \<times> Conn)" where
  "Write co p =
     (case NetConn co of
        Some (TCP c) \<Rightarrow>
          (if length p < 2 then Inr (0, Some ErrShortBuffer, co)
           else
             (case packUint16 (of_nat (length p)) of (l0, l1) \<Rightarrow>
                let q = [l0, l1] @ p in
                (case tcp_Write c q of (n, err, c1) \<Rightarrow>
                   (case err of
                      Some e \<Rightarrow> Inr (n, Some e, co\<lparr>NetConn := Some (TCP c1)\<rparr>)
                    | None \<Rightarrow>
                        let i = n in
                        if i < length q then
                          (case tcp_Write c1 (drop i q) of (j, err2, c2) \<Rightarrow>
                             (case err2 of
                                Some e \<Rightarrow> Inr (i, Some e, co\<lparr>NetConn := Some (TCP c2)\<rparr>)
                              | None \<Rightarrow> Inr (i + j, None, co\<lparr>NetConn := Some (TCP c2)\<rparr>)))
                        else Inr (i, None, co\<lparr>NetConn := Some (TCP c1)\<rparr>)))))
      | Some (UDP u) \<Rightarrow>
          (case udp_Write u p of (n, err, u1) \<Rightarrow>
             Inr (n, err, co\<lparr>NetConn := Some (UDP u1)\<rparr>))
      | None \<Rightarrow> Inl NilInterfaceConversion)"

subsection \<open>Read, lines 161 to 201\<close>

text \<open>
  The loop of lines 185 to 191: \<open>i\<close> bytes of the \<open>l\<close> are in the buffer; each turn
  reads into \<^verbatim>\<open>p[i:l]\<close>. An error ends the loop with the count before the failing call.
  The loop ends on every script: a turn either uses up a script step, or delivers at
  least one byte, or fails.
\<close>

function read_loop ::
  "TCPConn \<Rightarrow> byte list \<Rightarrow> nat \<Rightarrow> nat \<Rightarrow> nat \<times> error option \<times> byte list \<times> TCPConn" where
  "read_loop c p i l =
     (if i < l then
        (case tcp_Read c (l - i) of (d, err, c1) \<Rightarrow>
           (case err of
              Some e \<Rightarrow> (i, Some e, store p i d, c1)
            | None \<Rightarrow> read_loop c1 (store p i d) (i + length d) l))
      else (i, None, p, c))"
  by pat_completeness auto
termination
proof (relation "measure (\<lambda>(c, p, i, l). (l - i) + length (rsteps c))", goal_cases)
  case 1
  show ?case by simp
next
  case (2 c p i l d y err c1)
  then have r: "tcp_Read c (l - i) = (d, None, c1)" and il: "i < l"
    by (simp_all add: prod_eq_iff)
  have "(l - (i + length d)) + length (rsteps c1) < (l - i) + length (rsteps c)"
  proof (cases "rsteps c")
    case Nil
    with r have ne: "incoming c \<noteq> []" and d: "d = take (l - i) (incoming c)"
      and c1: "rsteps c1 = []"
      by (auto simp: tcp_Read_def split: if_splits)
    from ne d il have "0 < length d"
      by (cases "incoming c") auto
    with il have "l - (i + length d) < l - i"
      by arith
    with c1 Nil show ?thesis
      by simp
  next
    case (Cons s rest)
    with r have "rsteps c1 = rest"
      by (cases s) (auto simp: tcp_Read_def)
    with il Cons show ?thesis
      by simp
  qed
  then show ?case
    by simp
qed

text \<open>
  The result is the byte count, the error, the buffer after the call and the connection
  after the call. \<^verbatim>\<open>err != nil || n != 2\<close> is the \<open>case\<close> on the error followed by the
  test of \<open>n\<close>.
\<close>

definition Read :: "Conn \<Rightarrow> byte list \<Rightarrow> nat \<times> error option \<times> byte list \<times> Conn" where
  "Read co p =
     (case NetConn co of
        None \<Rightarrow> (0, Some ErrConnEmpty, p, co)
      | Some h \<Rightarrow>
          if length p < 2 then (0, Some ErrShortBuffer, p, co)
          else
            (case h of
               TCP c \<Rightarrow>
                 (case tcp_Read c 2 of (d, err, c1) \<Rightarrow>
                    let p1 = store p 0 d; n = length d in
                    (case err of
                       Some e \<Rightarrow> (n, Some e, p1, co\<lparr>NetConn := Some (TCP c1)\<rparr>)
                     | None \<Rightarrow>
                         if n = 2 then
                           (let l = unat (fst (unpackUint16 (take 2 p1) 0)) in
                            if l = 0 then (0, Some ErrShortRead, p1, co\<lparr>NetConn := Some (TCP c1)\<rparr>)
                            else if l > length p
                            then (l, Some ErrShortBuffer, p1, co\<lparr>NetConn := Some (TCP c1)\<rparr>)
                            else
                              (case tcp_Read c1 l of (d2, err2, c2) \<Rightarrow>
                                 let p2 = store p1 0 d2; n2 = length d2 in
                                 (case err2 of
                                    Some e \<Rightarrow> (n2, Some e, p2, co\<lparr>NetConn := Some (TCP c2)\<rparr>)
                                  | None \<Rightarrow>
                                      (case read_loop c2 p2 n2 l of (i, err3, p3, c3) \<Rightarrow>
                                         (i, err3, p3, co\<lparr>NetConn := Some (TCP c3)\<rparr>)))))
                         else (n, None, p1, co\<lparr>NetConn := Some (TCP c1)\<rparr>)))
             | UDP u \<Rightarrow>
                 (case udp_Read u (length p) of (d, err, u1) \<Rightarrow>
                    (length d, err, store p 0 d, co\<lparr>NetConn := Some (UDP u1)\<rparr>))))"

subsection \<open>Messages and the collaborators\<close>

text \<open>
  Modelled from the spec: the structs \<^verbatim>\<open>Question\<close> and \<^verbatim>\<open>Msg\<close> are declared in another
  file of the package. This file reads the question section only (the first question's
  name, type and class, which the spec's query key names); the identifier and the rest of
  a message are kept so that messages can differ elsewhere.
\<close>

record Question =
  Name :: string
  Qtype :: uint16
  Qclass :: uint16

record Msg =
  Id :: uint16
  Question :: "Question list"
  Body :: "byte list"

text \<open>
  A \<^verbatim>\<open>*Msg\<close> is an address into a store of messages; \<^verbatim>\<open>new(Msg)\<close> appends the zero
  message and returns its address. Queries are only read by this file and are passed by
  value.
\<close>

type_synonym ref = nat
type_synonym heap = "Msg list"

definition zeroMsg :: Msg where
  "zeroMsg = \<lparr>Id = 0, Question = [], Body = []\<rparr>"

text \<open>
  The collaborators of the file, as parameters: \<^verbatim>\<open>net.DialTimeout\<close> (network, address,
  time-out), the codec (\<^verbatim>\<open>Msg.Pack\<close>, \<^verbatim>\<open>Msg.Unpack\<close>), \<^verbatim>\<open>Msg.IsTsig\<close> (the owner name
  \<^verbatim>\<open>t.Hdr.Name\<close> of the TSIG record, \<open>None\<close> for \<^verbatim>\<open>nil\<close>), \<^verbatim>\<open>Msg.IsEdns0\<close> (the \<^verbatim>\<open>UDPSize()\<close>
  of the OPT record, \<open>None\<close> for \<^verbatim>\<open>nil\<close>), \<^verbatim>\<open>TsigGenerate\<close> and \<^verbatim>\<open>TsigVerify\<close> (message or
  bytes, secret, request MAC; the last argument is always \<^verbatim>\<open>false\<close>), the tables
  \<^verbatim>\<open>TypeToString\<close> and \<^verbatim>\<open>ClassToString\<close>, the constants \<^verbatim>\<open>MinMsgSize\<close> and \<^verbatim>\<open>MaxMsgSize\<close>,
  and the clock: what \<^verbatim>\<open>time.Now()\<close> returns in \<^verbatim>\<open>WriteMsg\<close> and in the \<^verbatim>\<open>time.Since\<close>
  of \<^verbatim>\<open>ReadMsg\<close>.
\<close>

record Env =
  dial :: "string \<Rightarrow> string \<Rightarrow> int \<Rightarrow> error + netconn"
  Pack :: "Msg \<Rightarrow> byte list \<times> error option"
  Unpack :: "byte list \<Rightarrow> error + Msg"
  IsTsig :: "Msg \<Rightarrow> string option"
  IsEdns0 :: "Msg \<Rightarrow> uint16 option"
  TsigGenerate :: "Msg \<Rightarrow> string \<Rightarrow> string \<Rightarrow> byte list \<times> string \<times> error option"
  TsigVerify :: "byte list \<Rightarrow> string \<Rightarrow> string \<Rightarrow> error option"
  TypeToString :: "uint16 \<rightharpoonup> string"
  ClassToString :: "uint16 \<rightharpoonup> string"
  MinMsgSize :: nat
  MaxMsgSize :: nat
  now_write :: int
  now_read :: int

subsection \<open>ReadMsg, lines 129 to 158\<close>

text \<open>The receive buffer of lines 130 to 140.\<close>

definition ReadMsg_buf :: "Env \<Rightarrow> Conn \<Rightarrow> byte list" where
  "ReadMsg_buf env co =
     (case NetConn co of
        Some (TCP c) \<Rightarrow> replicate (MaxMsgSize env) 0
      | _ \<Rightarrow>
          if unat (UDPSize co) \<ge> 512 then replicate (unat (UDPSize co)) 0
          else replicate (MinMsgSize env) 0)"

text \<open>
  The result is the message, the error, the connection after the call and the store
  after the call. \<^verbatim>\<open>p[:n]\<close> panics when \<open>n\<close> is beyond the capacity of the buffer. The
  \<^verbatim>\<open>err\<close> of the \<^verbatim>\<open>Unpack\<close> test is a variable of its own, so without a TSIG record the
  error of \<^verbatim>\<open>Read\<close> is what line 157 returns.
\<close>

definition ReadMsg ::
  "Env \<Rightarrow> Conn \<Rightarrow> heap \<Rightarrow> panic + (ref option \<times> error option \<times> Conn \<times> heap)" where
  "ReadMsg env co h =
     (let m = length h; h1 = h @ [zeroMsg]; p = ReadMsg_buf env co in
      case Read co p of (n, err, p1, co1) \<Rightarrow>
        if err \<noteq> None \<and> n = 0 then Inr (None, err, co1, h1)
        else if n > length p then Inl SliceBoundsOutOfRange
        else
          let p2 = take n p1 in
          (case Unpack env p2 of
             Inl e \<Rightarrow> Inr (None, Some e, co1, h1)
           | Inr msg \<Rightarrow>
               let h2 = h1[m := msg]; co2 = co1\<lparr>rtt := now_read env - t co1\<rparr> in
               (case IsTsig env msg of
                  Some name \<Rightarrow>
                    (case TsigSecret co2 name of
                       None \<Rightarrow> Inr (Some m, Some ErrSecret, co2, h2)
                     | Some secret \<Rightarrow>
                         Inr (Some m, TsigVerify env p2 secret (tsigRequestMAC co2), co2, h2))
                | None \<Rightarrow> Inr (Some m, err, co2, h2))))"

subsection \<open>WriteMsg, lines 206 to 227\<close>

text \<open>Lines 219 to 226, which both branches of the TSIG test reach.\<close>

definition WriteMsg_send ::
  "Env \<Rightarrow> Conn \<Rightarrow> byte list \<Rightarrow> error option \<Rightarrow> panic + (error option \<times> Conn)" where
  "WriteMsg_send env co out err =
     (case err of
        Some e \<Rightarrow> Inr (Some e, co)
      | None \<Rightarrow>
          (case Write (co\<lparr>t := now_write env\<rparr>) out of
             Inl pn \<Rightarrow> Inl pn
           | Inr (n, err2, co2) \<Rightarrow> Inr (err2, co2)))"

definition WriteMsg :: "Env \<Rightarrow> Conn \<Rightarrow> Msg \<Rightarrow> panic + (error option \<times> Conn)" where
  "WriteMsg env co m =
     (case IsTsig env m of
        Some name \<Rightarrow>
          (case TsigSecret co name of
             None \<Rightarrow> Inr (Some ErrSecret, co)
           | Some secret \<Rightarrow>
               (case TsigGenerate env m secret (tsigRequestMAC co) of (out, mac, err) \<Rightarrow>
                  WriteMsg_send env (co\<lparr>tsigRequestMAC := mac\<rparr>) out err))
      | None \<Rightarrow> (case Pack env m of (out, err) \<Rightarrow> WriteMsg_send env co out err))"

subsection \<open>The client\<close>

text \<open>
  What an exchange returns: the message, the round-trip time and the error. The
  deduplication coordinator \<^verbatim>\<open>singleflight\<close> is defined in another file of the package;
  it is a parameter here: \<^verbatim>\<open>Do\<close> takes the key and the work, and returns a reply and
  whether the reply is shared.
\<close>

type_synonym reply = "ref option \<times> int \<times> error option"
type_synonym work = "heap \<Rightarrow> panic + (reply \<times> heap)"
type_synonym singleflight = "string \<Rightarrow> work \<Rightarrow> heap \<Rightarrow> panic + ((reply \<times> bool) \<times> heap)"

text \<open>The struct \<^verbatim>\<open>Client\<close>, lines 28 to 36.\<close>

record Client =
  Net :: string
  DialTimeout :: int
  ReadTimeout :: int
  WriteTimeout :: int
  TsigSecret :: "string \<rightharpoonup> string"
  SingleInflight :: bool
  group :: singleflight

definition dnsTimeout :: int where
  "dnsTimeout = 2 * 1000000000"

text \<open>
  Modelled from the spec: \<^verbatim>\<open>Msg.copy\<close> is defined in another file of the package; the
  spec has it return an independent deep copy. The copy is a new message of the store
  with the contents of the old one.
\<close>

definition copy :: "heap \<Rightarrow> ref \<Rightarrow> ref \<times> heap" where
  "copy h a = (length h, h @ [h ! a])"

text \<open>
  \<^verbatim>\<open>Client.exchange\<close>, lines 89 to 124, in three parts: the dial of lines 91 to 99, the
  connection as lines 90 and 114 to 118 set it up, and the write and the read. The
  deadlines of lines 103 to 112 act on the transport, whose time-outs are errors of its
  scripts; the deferred \<^verbatim>\<open>Close\<close> changes none of the results.
\<close>

definition exchange_dial :: "Env \<Rightarrow> Client \<Rightarrow> string \<Rightarrow> error + netconn" where
  "exchange_dial env c a =
     (let timeout = (if DialTimeout c \<noteq> 0 then DialTimeout c else dnsTimeout) in
      if Net c = [] then dial env ''udp'' a timeout else dial env (Net c) a timeout)"

definition exchange_conn :: "Env \<Rightarrow> Client \<Rightarrow> Msg \<Rightarrow> netconn \<Rightarrow> Conn" where
  "exchange_conn env c m nc =
     (let co = \<lparr>NetConn = Some nc, UDPSize = 0, TsigSecret = Map.empty, rtt = 0, t = 0,
                tsigRequestMAC = []\<rparr>;
          co1 = (case IsEdns0 env m of
                   Some sz \<Rightarrow> if unat sz \<ge> MinMsgSize env then co\<lparr>UDPSize := sz\<rparr> else co
                 | None \<Rightarrow> co)
      in co1\<lparr>Conn.TsigSecret := Client.TsigSecret c\<rparr>)"

definition exchange :: "Env \<Rightarrow> Client \<Rightarrow> Msg \<Rightarrow> string \<Rightarrow> work" where
  "exchange env c m a h =
     (case exchange_dial env c a of
        Inl e \<Rightarrow> Inr ((None, 0, Some e), h)
      | Inr nc \<Rightarrow>
          (case WriteMsg env (exchange_conn env c m nc) m of
             Inl pn \<Rightarrow> Inl pn
           | Inr (Some e, co1) \<Rightarrow> Inr ((None, 0, Some e), h)
           | Inr (None, co1) \<Rightarrow>
               (case ReadMsg env co1 h of
                  Inl pn \<Rightarrow> Inl pn
                | Inr (r, err, co2, h2) \<Rightarrow> Inr ((r, rtt co2, err), h2))))"

text \<open>
  \<^verbatim>\<open>Client.Exchange\<close>, lines 63 to 87, in two parts. \<open>Exchange_deliver\<close> is lines 79 to
  86: what the caller makes of what \<^verbatim>\<open>Do\<close> returned. An error returns the message as it
  came; otherwise a shared message is copied; \<^verbatim>\<open>r.copy()\<close> on \<^verbatim>\<open>nil\<close> panics. In
  \<open>Exchange\<close>, \<^verbatim>\<open>m.Question[0]\<close> panics on an empty question section.
\<close>

definition Exchange_deliver :: "panic + ((reply \<times> bool) \<times> heap) \<Rightarrow> panic + (reply \<times> heap)" where
  "Exchange_deliver res =
     (case res of
        Inl pn \<Rightarrow> Inl pn
      | Inr (((r, rt, err), shared), h1) \<Rightarrow>
          (case err of
             Some e \<Rightarrow> Inr ((r, rt, Some e), h1)
           | None \<Rightarrow>
               if shared then
                 (case r of
                    None \<Rightarrow> Inl NilPointerDereference
                  | Some a0 \<Rightarrow>
                      (case copy h1 a0 of (r1, h2) \<Rightarrow> Inr ((Some r1, rt, None), h2)))
               else Inr ((r, rt, None), h1)))"

definition Exchange :: "Env \<Rightarrow> Client \<Rightarrow> Msg \<Rightarrow> string \<Rightarrow> work" where
  "Exchange env c m a h =
     (if \<not> SingleInflight c then exchange env c m a h
      else
        (case Question m of
           [] \<Rightarrow> Inl IndexOutOfRange
         | q # qs \<Rightarrow>
             let tn = (case TypeToString env (Qtype q) of Some t1 \<Rightarrow> t1 | None \<Rightarrow> ''nop'');
                 cl = (case ClassToString env (Qclass q) of Some cl1 \<Rightarrow> cl1 | None \<Rightarrow> ''nop'')
             in Exchange_deliver (group c (Name q @ tn @ cl) (exchange env c m a) h)))"

text \<open>
  Modelled from the spec: \<^verbatim>\<open>singleflight.Do\<close> is defined in another file of the package.
  The spec has the first caller for a key run the work and receive its reply as
  original, and a caller that presents the key of a call in flight receive that call's
  reply as shared, without running its own work. Read for one caller at a time, with
  \<open>calls\<close> the replies of the calls in flight by key:
\<close>

definition Do :: "(string \<rightharpoonup> reply) \<Rightarrow> singleflight" where
  "Do calls key wk h =
     (case calls key of
        Some rep \<Rightarrow> Inr ((rep, True), h)
      | None \<Rightarrow>
          (case wk h of
             Inl pn \<Rightarrow> Inl pn
           | Inr (rep, h1) \<Rightarrow> Inr ((rep, False), h1)))"

subsection \<open>The query key of the spec\<close>

text \<open>
  The spec's query key, in the spec's words: the concatenation of the first question's
  name, type and class, each of the two by its symbolic name when one is known and by a
  fixed placeholder otherwise. It is compared below with the key that lines 68 to 76
  build. A message without a question has no key.
\<close>

definition symbolic :: "(uint16 \<rightharpoonup> string) \<Rightarrow> uint16 \<Rightarrow> string" where
  "symbolic tbl x = (case tbl x of Some s \<Rightarrow> s | None \<Rightarrow> ''nop'')"

definition spec_query_key :: "Env \<Rightarrow> Msg \<Rightarrow> string option" where
  "spec_query_key env m =
     (case Question m of
        [] \<Rightarrow> None
      | q # qs \<Rightarrow>
          Some (Name q @ symbolic (TypeToString env) (Qtype q) @
                symbolic (ClassToString env) (Qclass q)))"

subsection \<open>Transports that take a frame within two calls\<close>

text \<open>
  \<open>takes_in_two ws n\<close>: a transport whose write script is \<open>ws\<close> takes \<open>n\<close> bytes in its
  first call, or in its first call and one further call for the remainder, and reports
  no error.
\<close>

fun takes_in_two :: "io_step list \<Rightarrow> nat \<Rightarrow> bool" where
  "takes_in_two [] n = True"
| "takes_in_two (Broken k e # rest) n = False"
| "takes_in_two (Part k # rest) n =
     (if n \<le> k then True
      else (case rest of
              [] \<Rightarrow> True
            | Part k2 # rest2 \<Rightarrow> n \<le> k + k2
            | Broken k2 e # rest2 \<Rightarrow> False))"

subsection \<open>Concrete instances\<close>

text \<open>
  The connection \<^verbatim>\<open>new(Conn)\<close> with its \<^verbatim>\<open>net.Conn\<close> set, and a TCP connection with
  nothing on the wire, for the closed instances below.
\<close>

definition newConn :: "netconn \<Rightarrow> Conn" where
  "newConn nc =
     \<lparr>NetConn = Some nc, UDPSize = 0, TsigSecret = Map.empty, rtt = 0, t = 0,
      tsigRequestMAC = []\<rparr>"

definition stream :: "byte list \<Rightarrow> io_step list \<Rightarrow> io_step list \<Rightarrow> TCPConn" where
  "stream bs rs ws = \<lparr>incoming = bs, rsteps = rs, wire = [], wsteps = ws\<rparr>"

text \<open>
  An environment for the closed instances: a resolver reached over a stream, whose
  answer is the frame \<open>[0, 2, 1, 1]\<close>; a codec that keeps the bytes of a message in its
  body; a message carries a TSIG record, owned by \<open>key.\<close>, when its first byte is 1. The
  write happens at time 100 and the answer is decoded at time 105.
\<close>

definition env0 :: Env where
  "env0 =
     \<lparr>dial = (\<lambda>network address timeout.
                if address = [] then Inl (NetError ''dial'')
                else Inr (TCP (stream [0, 2, 1, 1] [] []))),
      Pack = (\<lambda>m. (Body m, None)),
      Unpack = (\<lambda>bs. Inr \<lparr>Id = 0, Question = [], Body = bs\<rparr>),
      IsTsig = (\<lambda>m. if take 1 (Body m) = [1] then Some ''key.'' else None),
      IsEdns0 = (\<lambda>m. None),
      TsigGenerate = (\<lambda>m secret mac. (Body m, ''mac'', None)),
      TsigVerify = (\<lambda>bs secret mac. None),
      TypeToString = [1 \<mapsto> ''A''],
      ClassToString = [1 \<mapsto> ''IN''],
      MinMsgSize = 512,
      MaxMsgSize = 65535,
      now_write = 100,
      now_read = 105\<rparr>"

text \<open>
  A client over TCP with no secrets, with deduplication as given and the calls in flight
  as given; and a query for \<open>example.org.\<close>, type 1, class 1, with the identifier and
  the body as given.
\<close>

definition client0 :: "bool \<Rightarrow> (string \<rightharpoonup> reply) \<Rightarrow> Client" where
  "client0 single calls =
     \<lparr>Net = ''tcp'', DialTimeout = 0, ReadTimeout = 0, WriteTimeout = 0,
      TsigSecret = Map.empty, SingleInflight = single, group = Do calls\<rparr>"

definition query0 :: "uint16 \<Rightarrow> byte list \<Rightarrow> Msg" where
  "query0 i bs =
     \<lparr>Id = i, Question = [\<lparr>Name = ''example.org.'', Qtype = 1, Qclass = 1\<rparr>], Body = bs\<rparr>"

section \<open>Properties\<close>

subsection \<open>The length prefix\<close>

text \<open>The two bytes of the prefix, read as a big-endian number, are the 16-bit value.\<close>

lemma pack_value: "packUint16 w = (hi, lo) \<Longrightarrow> unat hi * 256 + unat lo = unat w"
proof -
  assume a: "packUint16 w = (hi, lo)"
  have lt: "unat w < 65536"
    using unsigned_less [of w, where ?'a = nat] by simp
  from a have hl: "hi = ucast (drop_bit 8 w)" "lo = ucast w"
    by (simp_all add: packUint16_def)
  have "unat hi = take_bit 8 (unat (drop_bit 8 w))"
    unfolding hl by (simp only: unsigned_ucast_eq) simp
  also have "\<dots> = take_bit 8 (drop_bit 8 (unat w))"
    by (simp only: unat_drop_bit_eq)
  also have "\<dots> = (unat w div 256) mod 256"
    by (simp add: take_bit_eq_mod drop_bit_eq_div)
  also have "\<dots> = unat w div 256"
    using lt by simp
  finally have hi: "unat hi = unat w div 256" .
  have lo: "unat lo = unat w mod 256"
    unfolding hl by (simp add: unsigned_ucast_eq take_bit_eq_mod)
  show ?thesis
    unfolding hi lo by simp
qed

lemma unpack_value: "unat (fst (unpackUint16 [b0, b1] 0)) = unat b0 * 256 + unat b1"
proof -
  have b0: "unat b0 < 256" and b1: "unat b1 < 256"
    using unsigned_less [of b0, where ?'a = nat] unsigned_less [of b1, where ?'a = nat]
    by simp_all
  have "push_bit 8 (unat b0) AND unat b1 = 0"
    by (auto simp: bit_eq_iff bit_simps dest: bit_imp_le_length)
  then have dis: "push_bit 8 (unat b0) OR unat b1 = push_bit 8 (unat b0) + unat b1"
    by (simp add: disjunctive_add_eq_or)
  have "unat (fst (unpackUint16 [b0, b1] 0)) =
          take_bit 16 (push_bit 8 (take_bit 16 (unat b0))) OR take_bit 16 (unat b1)"
    by (simp add: unpackUint16_def unsigned_or_eq unsigned_push_bit_eq unsigned_ucast_eq)
  also have "\<dots> = push_bit 8 (unat b0) OR unat b1"
    using b0 b1 by (simp add: take_bit_eq_mod push_bit_eq_mult)
  also have "\<dots> = unat b0 * 256 + unat b1"
    unfolding dis by (simp add: push_bit_eq_mult)
  finally show ?thesis .
qed

lemma unpack_pack: "packUint16 w = (hi, lo) \<Longrightarrow> fst (unpackUint16 [hi, lo] 0) = w"
  using pack_value [of w hi lo] unpack_value [of hi lo]
  by (simp add: word_unat_eq_iff)

lemma pack_of_nat: "packUint16 (of_nat n) = (hi, lo) \<Longrightarrow> unat hi * 256 + unat lo = n mod 65536"
  using pack_value [of "of_nat n" hi lo] by (simp add: unat_of_nat)

lemma store_length: "off + length d \<le> length p \<Longrightarrow> length (store p off d) = length p"
  by (simp add: store_def)

subsection \<open>Write on a stream\<close>

lemma take_min_length: "take (min j (length bs)) bs = take j bs"
  by (simp add: min_def)

lemma tcp_Write_error: "tcp_Write c bs = (n, Some e, c1) \<Longrightarrow> \<exists>s. e = NetError s"
  by (auto simp: tcp_Write_def split: list.splits io_step.splits)

lemma tcp_Write_wire:
  "tcp_Write c bs = (n, err, c1) \<Longrightarrow> n \<le> length bs \<and> wire c1 = wire c @ take n bs"
  by (auto simp: tcp_Write_def take_min_length split: list.splits io_step.splits)

text \<open>
  C5, as amended. On a stream transport \<^verbatim>\<open>Write\<close> fails with \<^verbatim>\<open>io.ErrShortBuffer\<close> exactly
  when the payload has fewer than 2 bytes, that is when it is empty or a single byte, and
  then it writes nothing and returns the count 0; for every payload of at least 2 bytes
  it does not fail with that error (an error of the transport is a \<open>NetError\<close>).
\<close>

theorem Write_stream_ShortBuffer:
  "NetConn co = Some (TCP c) \<Longrightarrow>
   (length p < 2 \<longrightarrow> Write co p = Inr (0, Some ErrShortBuffer, co)) \<and>
   ((\<exists>n co1. Write co p = Inr (n, Some ErrShortBuffer, co1)) \<longleftrightarrow> length p < 2)"
  by (auto simp: Write_def Let_def split: prod.splits option.splits dest: tcp_Write_error)

text \<open>
  C5 as stated fails: a payload of one byte is not empty, and \<^verbatim>\<open>Write\<close> fails with
  \<^verbatim>\<open>io.ErrShortBuffer\<close> on it (line 232 tests \<^verbatim>\<open>len(p) < 2\<close>).
\<close>

theorem Write_single_byte_ShortBuffer:
  "Write (newConn (TCP (stream [] [] []))) [42] =
     Inr (0, Some ErrShortBuffer, newConn (TCP (stream [] [] [])))"
  by (simp add: Write_def newConn_def)

text \<open>The amended C5 at the empty payload and at a payload of two bytes.\<close>

theorem Write_stream_ShortBuffer_witness:
  "Write (newConn (TCP (stream [] [] []))) [] =
     Inr (0, Some ErrShortBuffer, newConn (TCP (stream [] [] []))) \<and>
   \<not> (\<exists>n co1. Write (newConn (TCP (stream [] [] []))) [1, 2] = Inr (n, Some ErrShortBuffer, co1))"
  using Write_stream_ShortBuffer [of "newConn (TCP (stream [] [] []))" "stream [] [] []" "[]"]
    Write_stream_ShortBuffer [of "newConn (TCP (stream [] [] []))" "stream [] [] []" "[1, 2]"]
  by (simp add: newConn_def)

text \<open>
  Whatever \<^verbatim>\<open>Write\<close> returns, the bytes that reached the wire are a prefix of the frame:
  the two bytes of the packed length, then the payload.
\<close>

lemma Write_stream_prefix:
  assumes co: "NetConn co = Some (TCP c)" and len: "2 \<le> length p"
    and pk: "packUint16 (of_nat (length p)) = (hi, lo)"
    and w: "Write co p = Inr (n, err, co1)"
  shows "\<exists>c1 k. co1 = co\<lparr>NetConn := Some (TCP c1)\<rparr> \<and> k \<le> length p + 2 \<and>
           wire c1 = wire c @ take k ([hi, lo] @ p) \<and> n \<le> k \<and> (err = None \<longrightarrow> k = n) \<and>
           (\<forall>e. err = Some e \<longrightarrow> (\<exists>s. e = NetError s))"
proof -
  define q where "q = [hi, lo] @ p"
  have lq: "length q = length p + 2"
    by (simp add: q_def)
  obtain n1 e1 c1 where w1: "tcp_Write c q = (n1, e1, c1)"
    by (cases "tcp_Write c q") auto
  from tcp_Write_wire [OF w1] have n1: "n1 \<le> length q" and wire1: "wire c1 = wire c @ take n1 q"
    by simp_all
  show ?thesis
  proof (cases e1)
    case (Some e)
    with w co len pk w1 have "n = n1" "err = Some e" "co1 = co\<lparr>NetConn := Some (TCP c1)\<rparr>"
      by (simp_all add: Write_def q_def)
    moreover from Some w1 obtain s where "e = NetError s"
      using tcp_Write_error by blast
    ultimately show ?thesis
      using n1 wire1 lq unfolding q_def by auto
  next
    case None
    show ?thesis
    proof (cases "n1 < length q")
      case False
      with None w co len pk w1 have "n = n1" "err = None" "co1 = co\<lparr>NetConn := Some (TCP c1)\<rparr>"
        by (simp_all add: Write_def q_def)
      then show ?thesis
        using n1 wire1 lq unfolding q_def by auto
    next
      case True
      obtain j e2 c2 where w2: "tcp_Write c1 (drop n1 q) = (j, e2, c2)"
        by (cases "tcp_Write c1 (drop n1 q)") auto
      from tcp_Write_wire [OF w2] have j: "j \<le> length q - n1"
        and "wire c2 = wire c1 @ take j (drop n1 q)"
        by simp_all
      with wire1 have wire2: "wire c2 = wire c @ take (n1 + j) q"
        by (simp add: take_add)
      from None True w co len pk w1 w2
      have r: "co1 = co\<lparr>NetConn := Some (TCP c2)\<rparr>"
        "err = e2" "n = (case e2 of Some e \<Rightarrow> n1 | None \<Rightarrow> n1 + j)"
        by (auto simp: Write_def q_def Let_def split: option.splits)
      have "\<forall>e. e2 = Some e \<longrightarrow> (\<exists>s. e = NetError s)"
        using w2 tcp_Write_error by blast
      with r wire2 j True lq show ?thesis
        unfolding q_def by (auto split: option.splits intro!: exI [of _ c2] exI [of _ "n1 + j"])
    qed
  qed
qed

lemma Write_takes_in_two:
  assumes co: "NetConn co = Some (TCP c)" and len: "2 \<le> length p"
    and two: "takes_in_two (wsteps c) (length p + 2)"
  shows "\<exists>co1. Write co p = Inr (length p + 2, None, co1)"
proof (cases "wsteps c")
  case Nil
  with co len show ?thesis
    by (simp add: Write_def tcp_Write_def split: prod.splits)
next
  case (Cons s rest)
  note c1 = Cons
  show ?thesis
  proof (cases s)
    case (Broken k e)
    with two c1 show ?thesis
      by simp
  next
    case (Part k)
    show ?thesis
    proof (cases "length p + 2 \<le> k")
      case True
      with co len c1 Part show ?thesis
        by (simp add: Write_def tcp_Write_def split: prod.splits)
    next
      case False
      with two c1 Part co len show ?thesis
        by (auto simp: Write_def tcp_Write_def Let_def split: prod.splits list.splits io_step.splits)
    qed
  qed
qed

text \<open>
  C2, as amended. For every payload of length \<open>L\<close> with \<open>2 \<le> L \<le> 65535\<close> written on a
  stream transport, the frame is 2 big-endian length bytes with value \<open>L\<close> followed by
  the \<open>L\<close> payload bytes. When the transport takes the frame in the first call, or in the
  first call and one further call for the remainder, \<^verbatim>\<open>Write\<close> returns \<open>L + 2\<close> without an
  error and exactly the frame has been added to the wire. In every case what has been
  added to the wire is a prefix of the frame, at least as long as the count returned
  and exactly as long when no error is returned, and an error returned is the
  transport's.
\<close>

theorem Write_stream_frame:
  assumes co: "NetConn co = Some (TCP c)" and len: "2 \<le> length p" and max: "length p \<le> 65535"
  shows "\<exists>hi lo. unat hi * 256 + unat lo = length p \<and>
    (takes_in_two (wsteps c) (length p + 2) \<longrightarrow>
       (\<exists>c1. Write co p = Inr (length p + 2, None, co\<lparr>NetConn := Some (TCP c1)\<rparr>) \<and>
             wire c1 = wire c @ [hi, lo] @ p)) \<and>
    (\<forall>n err co1. Write co p = Inr (n, err, co1) \<longrightarrow>
       (\<exists>c1 k. co1 = co\<lparr>NetConn := Some (TCP c1)\<rparr> \<and> wire c1 = wire c @ take k ([hi, lo] @ p) \<and>
               n \<le> k \<and> (err = None \<longrightarrow> k = n) \<and> (\<forall>e. err = Some e \<longrightarrow> (\<exists>s. e = NetError s))))"
proof -
  obtain hi lo where pk: "packUint16 (of_nat (length p)) = (hi, lo)"
    by (cases "packUint16 (of_nat (length p))") auto
  from pack_of_nat [OF pk] max have val: "unat hi * 256 + unat lo = length p"
    by simp
  have whole: "\<exists>c1. Write co p = Inr (length p + 2, None, co\<lparr>NetConn := Some (TCP c1)\<rparr>) \<and>
                    wire c1 = wire c @ [hi, lo] @ p"
    if two: "takes_in_two (wsteps c) (length p + 2)"
  proof -
    from Write_takes_in_two [OF co len two] obtain co1
      where w: "Write co p = Inr (length p + 2, None, co1)" by blast
    from Write_stream_prefix [OF co len pk w] obtain c1 k
      where "co1 = co\<lparr>NetConn := Some (TCP c1)\<rparr>" "wire c1 = wire c @ take k ([hi, lo] @ p)"
        "k = length p + 2"
      by auto
    with w show ?thesis
      by auto
  qed
  have part: "\<exists>c1 k. co1 = co\<lparr>NetConn := Some (TCP c1)\<rparr> \<and> wire c1 = wire c @ take k ([hi, lo] @ p) \<and>
               n \<le> k \<and> (err = None \<longrightarrow> k = n) \<and> (\<forall>e. err = Some e \<longrightarrow> (\<exists>s. e = NetError s))"
    if w: "Write co p = Inr (n, err, co1)" for n err co1
    using Write_stream_prefix [OF co len pk w] by blast
  from val whole part show ?thesis
    by blast
qed

lemma prefix_bytes:
  fixes hi lo :: byte
  assumes "unat hi * 256 + unat lo = v"
  shows "hi = of_nat (v div 256) \<and> lo = of_nat (v mod 256)"
proof -
  have lo: "unat lo < 256"
    using unsigned_less [of lo, where ?'a = nat] by simp
  with assms have "v div 256 = unat hi" "v mod 256 = unat lo"
    by auto
  then show ?thesis
    by simp
qed

text \<open>
  The amended C2 at a payload of three bytes, on a transport that takes one byte in the
  first call and the other four in the second.
\<close>

theorem Write_stream_frame_witness:
  "\<exists>c1. Write (newConn (TCP (stream [] [] [Part 1, Part 4]))) [7, 8, 9] =
           Inr (5, None, newConn (TCP c1)) \<and> wire c1 = [0, 3, 7, 8, 9]"
proof -
  let ?c = "stream [] [] [Part 1, Part 4]"
  let ?p = "[7, 8, 9] :: byte list"
  have co: "NetConn (newConn (TCP ?c)) = Some (TCP ?c)"
    by (simp add: newConn_def)
  have len: "2 \<le> length ?p" "length ?p \<le> 65535"
    by simp_all
  from Write_stream_frame [OF co len] obtain hi lo
    where val: "unat hi * 256 + unat lo = length ?p"
      and w: "takes_in_two (wsteps ?c) (length ?p + 2) \<longrightarrow>
        (\<exists>c1. Write (newConn (TCP ?c)) ?p =
                 Inr (length ?p + 2, None, newConn (TCP ?c)\<lparr>NetConn := Some (TCP c1)\<rparr>) \<and>
               wire c1 = wire ?c @ [hi, lo] @ ?p)"
    by blast
  from prefix_bytes [OF val] have "hi = 0" "lo = 3"
    by simp_all
  moreover have "takes_in_two (wsteps ?c) (length ?p + 2)"
    by (simp add: stream_def)
  ultimately show ?thesis
    using w by (simp add: newConn_def stream_def eval_nat_numeral)
qed

text \<open>
  C2 as stated fails in three ways. A payload of one byte is not empty, and nothing is
  written for it. The remainder is written once, not in a loop: on a transport that takes
  two bytes per call, a payload of three bytes leaves its last byte unwritten, and
  \<^verbatim>\<open>Write\<close> returns 4 with no error. And for a payload of 65537 bytes the two length
  bytes have the value 1, not the length.
\<close>

theorem Write_stream_frame_fails:
  "Write (newConn (TCP (stream [] [] []))) [7] =
     Inr (0, Some ErrShortBuffer, newConn (TCP (stream [] [] []))) \<and>
   Write (newConn (TCP (stream [] [] [Part 2, Part 2, Part 2]))) [7, 8, 9] =
     Inr (4, None,
          newConn (TCP \<lparr>incoming = [], rsteps = [], wire = [0, 3, 7, 8], wsteps = [Part 2]\<rparr>)) \<and>
   Write (newConn (TCP (stream [] [] []))) (replicate 65537 7) =
     Inr (65539, None,
          newConn (TCP \<lparr>incoming = [], rsteps = [], wire = [0, 1] @ replicate 65537 7,
                         wsteps = []\<rparr>))"
  by (simp add: Write_def newConn_def stream_def tcp_Write_def packUint16_def)

text \<open>
  C10. On a stream transport the two length bytes hold the payload length reduced modulo
  \<open>2 ^ 16\<close>. For every payload longer than 65535 bytes \<^verbatim>\<open>Write\<close> reports no error of its
  own (an error returned is the transport's), the frame handed to the transport is the
  wrapped prefix followed by the whole payload, and the value of the prefix is not the
  number of payload bytes that follow. On a transport that takes the frame within two
  calls the whole frame reaches the wire and \<^verbatim>\<open>Write\<close> returns its length.
\<close>

theorem Write_stream_length_wraps:
  assumes co: "NetConn co = Some (TCP c)" and big: "65535 < length p"
  shows "\<exists>hi lo. unat hi * 256 + unat lo = length p mod 65536 \<and>
    unat hi * 256 + unat lo \<noteq> length p \<and>
    (takes_in_two (wsteps c) (length p + 2) \<longrightarrow>
       (\<exists>c1. Write co p = Inr (length p + 2, None, co\<lparr>NetConn := Some (TCP c1)\<rparr>) \<and>
             wire c1 = wire c @ [hi, lo] @ p)) \<and>
    (\<forall>n err co1. Write co p = Inr (n, err, co1) \<longrightarrow>
       (\<exists>c1 k. co1 = co\<lparr>NetConn := Some (TCP c1)\<rparr> \<and> wire c1 = wire c @ take k ([hi, lo] @ p)) \<and>
       (\<forall>e. err = Some e \<longrightarrow> (\<exists>s. e = NetError s)))"
proof -
  from big have len: "2 \<le> length p"
    by simp
  obtain hi lo where pk: "packUint16 (of_nat (length p)) = (hi, lo)"
    by (cases "packUint16 (of_nat (length p))") auto
  have val: "unat hi * 256 + unat lo = length p mod 65536"
    by (rule pack_of_nat [OF pk])
  have "length p mod 65536 < 65536"
    by simp
  with big val have ne: "unat hi * 256 + unat lo \<noteq> length p"
    by linarith
  have whole: "\<exists>c1. Write co p = Inr (length p + 2, None, co\<lparr>NetConn := Some (TCP c1)\<rparr>) \<and>
                    wire c1 = wire c @ [hi, lo] @ p"
    if two: "takes_in_two (wsteps c) (length p + 2)"
  proof -
    from Write_takes_in_two [OF co len two] obtain co1
      where w: "Write co p = Inr (length p + 2, None, co1)" by blast
    from Write_stream_prefix [OF co len pk w] obtain c1 k
      where "co1 = co\<lparr>NetConn := Some (TCP c1)\<rparr>" "wire c1 = wire c @ take k ([hi, lo] @ p)"
        "k = length p + 2"
      by auto
    with w show ?thesis
      by auto
  qed
  have part: "(\<exists>c1 k. co1 = co\<lparr>NetConn := Some (TCP c1)\<rparr> \<and> wire c1 = wire c @ take k ([hi, lo] @ p)) \<and>
       (\<forall>e. err = Some e \<longrightarrow> (\<exists>s. e = NetError s))"
    if w: "Write co p = Inr (n, err, co1)" for n err co1
    using Write_stream_prefix [OF co len pk w] by blast
  from val ne whole part show ?thesis
    by blast
qed

text \<open>C10 at a payload of 65537 bytes: the prefix on the wire says 1.\<close>

theorem Write_stream_length_wraps_witness:
  "\<exists>c1. Write (newConn (TCP (stream [] [] []))) (replicate 65537 7) =
           Inr (65539, None, newConn (TCP c1)) \<and> wire c1 = [0, 1] @ replicate 65537 7"
proof -
  let ?c = "stream [] [] []"
  let ?p = "replicate 65537 7 :: byte list"
  have co: "NetConn (newConn (TCP ?c)) = Some (TCP ?c)"
    by (simp add: newConn_def)
  have big: "65535 < length ?p"
    by simp
  from Write_stream_length_wraps [OF co big] obtain hi lo
    where val: "unat hi * 256 + unat lo = length ?p mod 65536"
      and w: "takes_in_two (wsteps ?c) (length ?p + 2) \<longrightarrow>
        (\<exists>c1. Write (newConn (TCP ?c)) ?p =
                 Inr (length ?p + 2, None, newConn (TCP ?c)\<lparr>NetConn := Some (TCP c1)\<rparr>) \<and>
               wire c1 = wire ?c @ [hi, lo] @ ?p)"
    by blast
  from prefix_bytes [OF val] have "hi = 0" "lo = 1"
    by simp_all
  moreover have "takes_in_two (wsteps ?c) (length ?p + 2)"
    by (simp add: stream_def)
  ultimately show ?thesis
    using w by (simp add: newConn_def stream_def)
qed

subsection \<open>Read on a stream\<close>

lemma take2_store: "2 \<le> length p \<Longrightarrow> take 2 (store p 0 [b0, b1]) = [b0, b1]"
  by (simp add: store_def)

text \<open>
  C6, as amended. On a stream transport, when the destination buffer has at least 2
  bytes and the first read call delivers both bytes of the length prefix without an
  error: if the advertised length \<open>L\<close> is 0, \<^verbatim>\<open>Read\<close> fails with \<^verbatim>\<open>ErrShortRead\<close> and the
  count 0, and \<^verbatim>\<open>ReadMsg\<close> returns no message; if \<open>L\<close> exceeds the length of the buffer,
  \<^verbatim>\<open>Read\<close> fails with \<^verbatim>\<open>io.ErrShortBuffer\<close> and returns \<open>L\<close> as the count.
\<close>

theorem Read_stream_length_checks:
  assumes co: "NetConn co = Some (TCP c)" and buf: "2 \<le> length p"
    and pre: "tcp_Read c 2 = ([b0, b1], None, c1)"
  shows "(unat b0 * 256 + unat b1 = 0 \<longrightarrow>
            Read co p = (0, Some ErrShortRead, store p 0 [b0, b1], co\<lparr>NetConn := Some (TCP c1)\<rparr>) \<and>
            (2 \<le> MaxMsgSize env \<longrightarrow>
               ReadMsg env co h =
                 Inr (None, Some ErrShortRead, co\<lparr>NetConn := Some (TCP c1)\<rparr>, h @ [zeroMsg]))) \<and>
         (length p < unat b0 * 256 + unat b1 \<longrightarrow>
            Read co p = (unat b0 * 256 + unat b1, Some ErrShortBuffer, store p 0 [b0, b1],
                         co\<lparr>NetConn := Some (TCP c1)\<rparr>))"
proof -
  have rd: "Read co q =
      (if unat b0 * 256 + unat b1 = 0
       then (0, Some ErrShortRead, store q 0 [b0, b1], co\<lparr>NetConn := Some (TCP c1)\<rparr>)
       else (unat b0 * 256 + unat b1, Some ErrShortBuffer, store q 0 [b0, b1],
             co\<lparr>NetConn := Some (TCP c1)\<rparr>))"
    if "2 \<le> length q" "unat b0 * 256 + unat b1 = 0 \<or> length q < unat b0 * 256 + unat b1" for q
    using that co pre unpack_value [of b0 b1]
    by (auto simp: Read_def Let_def take2_store)
  have "ReadMsg env co h =
          Inr (None, Some ErrShortRead, co\<lparr>NetConn := Some (TCP c1)\<rparr>, h @ [zeroMsg])"
    if z: "unat b0 * 256 + unat b1 = 0" and m: "2 \<le> MaxMsgSize env"
  proof -
    have "length (ReadMsg_buf env co) = MaxMsgSize env"
      using co by (simp add: ReadMsg_buf_def)
    with m z rd [of "ReadMsg_buf env co"] show ?thesis
      by (simp add: ReadMsg_def Let_def)
  qed
  with rd [of p] buf show ?thesis
    by auto
qed

text \<open>
  The amended C6 at a frame that advertises 0 bytes and at one that advertises 258 bytes,
  for a buffer of 4 bytes.
\<close>

theorem Read_stream_length_checks_witness:
  "Read (newConn (TCP (stream [0, 0, 7] [] []))) [1, 1, 1, 1] =
     (0, Some ErrShortRead, [0, 0, 1, 1], newConn (TCP (stream [7] [] []))) \<and>
   Read (newConn (TCP (stream [1, 2, 7] [] []))) [1, 1, 1, 1] =
     (258, Some ErrShortBuffer, [1, 2, 1, 1], newConn (TCP (stream [7] [] [])))"
proof -
  let ?p = "[1, 1, 1, 1] :: byte list"
  have buf: "2 \<le> length ?p"
    by simp
  have co: "NetConn (newConn (TCP (stream bs [] []))) = Some (TCP (stream bs [] []))" for bs
    by (simp add: newConn_def)
  have pre0: "tcp_Read (stream [0, 0, 7] [] []) 2 = ([0, 0], None, stream [7] [] [])"
    and pre1: "tcp_Read (stream [1, 2, 7] [] []) 2 = ([1, 2], None, stream [7] [] [])"
    by (simp_all add: tcp_Read_def stream_def)
  from Read_stream_length_checks [OF co buf pre0] Read_stream_length_checks [OF co buf pre1]
  show ?thesis
    by (simp add: store_def newConn_def)
qed

text \<open>
  C6 as stated fails. With a buffer of one byte, line 165 returns \<^verbatim>\<open>io.ErrShortBuffer\<close>
  with the count 0 before anything is read: a frame that advertises 258 bytes does not
  get 258 as the count, and a frame that advertises 0 bytes does not get \<^verbatim>\<open>ErrShortRead\<close>.
  And when the first read call delivers one byte of the prefix alone, line 170 returns
  the count 1 and no error, whatever length the frame advertises.
\<close>

theorem Read_short_buffer_or_split_prefix:
  "Read (newConn (TCP (stream [1, 2, 7] [] []))) [5] =
     (0, Some ErrShortBuffer, [5], newConn (TCP (stream [1, 2, 7] [] []))) \<and>
   Read (newConn (TCP (stream [0, 0, 7] [] []))) [5] =
     (0, Some ErrShortBuffer, [5], newConn (TCP (stream [0, 0, 7] [] []))) \<and>
   Read (newConn (TCP (stream [1, 2, 7] [Part 1] []))) [5, 5, 5, 5] =
     (1, None, [1, 5, 5, 5], newConn (TCP (stream [2, 7] [] []))) \<and>
   Read (newConn (TCP (stream [0, 0, 7] [Part 1] []))) [5, 5, 5, 5] =
     (1, None, [0, 5, 5, 5], newConn (TCP (stream [0, 7] [] [])))"
  by (simp add: Read_def newConn_def stream_def tcp_Read_def store_def)

text \<open>
  C3 fails on the code. The frame \<open>[0, 3, 7, 8, 9]\<close> is in the stream, and the transport
  delivers its first byte alone. Line 170 returns what the first call read when that is
  not 2 bytes: \<^verbatim>\<open>Read\<close> returns the count 1 and no error, the buffer holds the first byte of
  the prefix, and the payload is not reconstructed. The payload is read in a loop
  (lines 185 to 191); the prefix is not.
\<close>

theorem Read_split_prefix:
  "Read (newConn (TCP (stream [0, 3, 7, 8, 9] [Part 1] []))) [5, 5, 5, 5, 5, 5, 5, 5] =
     (1, None, [0, 5, 5, 5, 5, 5, 5, 5], newConn (TCP (stream [3, 7, 8, 9] [] [])))"
  by (simp add: Read_def newConn_def stream_def tcp_Read_def store_def)

text \<open>
  The rest of C3 holds: when the first call delivers both bytes of the prefix and the
  transport reports no error, \<^verbatim>\<open>Read\<close> reconstructs the payload however the transport
  splits it.
\<close>

lemma tcp_Read_Part:
  assumes ok: "\<forall>k e. Broken k e \<notin> set (rsteps c)"
    and inc: "incoming c = xs @ rest" and k: "0 < k" "k \<le> length xs"
  shows "\<exists>m c1. tcp_Read c k = (take m xs, None, c1) \<and> m \<le> k \<and>
           incoming c1 = drop m xs @ rest \<and> (\<forall>k e. Broken k e \<notin> set (rsteps c1)) \<and>
           (rsteps c = [] \<longrightarrow> m = k) \<and> (\<forall>j tl. rsteps c = Part j # tl \<longrightarrow> m = min j k)"
proof (cases "rsteps c")
  case Nil
  from inc k have "incoming c \<noteq> []"
    by auto
  with Nil inc k show ?thesis
    by (intro exI [of _ k]) (simp add: tcp_Read_def)
next
  case (Cons s tl)
  with ok obtain j where s: "s = Part j"
    by (cases s) auto
  from ok Cons have "\<forall>k e. Broken k e \<notin> set tl"
    by auto
  with Cons s inc k show ?thesis
    by (intro exI [of _ "min j k"]) (simp add: tcp_Read_def)
qed

lemma read_loop_complete:
  assumes "\<forall>k e. Broken k e \<notin> set (rsteps c)"
    and "incoming c = drop i payload @ rest"
    and "i \<le> length payload" and "l = length payload" and "l \<le> length p"
    and "take i p = take i payload"
  shows "\<exists>c1. read_loop c p i l = (l, None, payload @ drop l p, c1) \<and> incoming c1 = rest"
  using assms
proof (induction c p i l rule: read_loop.induct)
  case (1 c p i l)
  show ?case
  proof (cases "i < l")
    case False
    with "1.prems" have il: "i = l"
      by simp
    with "1.prems" have "p = payload @ drop l p"
      by (metis append_take_drop_id take_all_iff le_refl)
    with il "1.prems" False show ?thesis
      by (simp add: read_loop.simps [of c p i l])
  next
    case True
    with "1.prems" have k: "0 < l - i" "l - i \<le> length (drop i payload)"
      by simp_all
    from tcp_Read_Part [OF "1.prems"(1) "1.prems"(2) k] obtain m c1
      where rd: "tcp_Read c (l - i) = (take m (drop i payload), None, c1)"
        and m: "m \<le> l - i" and inc1: "incoming c1 = drop m (drop i payload) @ rest"
        and ok1: "\<forall>k e. Broken k e \<notin> set (rsteps c1)"
      by blast
    let ?d = "take m (drop i payload)"
    from m "1.prems" True have ld: "length ?d = m"
      by simp
    have inc1': "incoming c1 = drop (i + length ?d) payload @ rest"
      using inc1 ld by (simp add: add.commute)
    have le: "i + length ?d \<le> length payload"
      using ld m "1.prems" True by simp
    have tk: "take (i + length ?d) (store p i ?d) = take (i + length ?d) payload"
    proof -
      have "take (i + m) (store p i ?d) = take i p @ ?d"
        using ld "1.prems" True m by (simp add: store_def)
      also have "\<dots> = take i payload @ take m (drop i payload)"
        using "1.prems" by simp
      also have "\<dots> = take (i + m) payload"
        by (simp add: take_add)
      finally show ?thesis
        using ld by simp
    qed
    have lp: "l \<le> length (store p i ?d)"
      using "1.prems" ld m True by (simp add: store_def)
    from "1.IH" [OF True rd [symmetric] refl refl ok1 inc1' le "1.prems"(4) lp tk]
    obtain c2 where
      "read_loop c1 (store p i ?d) (i + length ?d) l =
         (l, None, payload @ drop l (store p i ?d), c2)" "incoming c2 = rest"
      by blast
    moreover have "drop l (store p i ?d) = drop l p"
      using "1.prems" ld m True by (simp add: store_def)
    ultimately show ?thesis
      using True rd by (simp add: read_loop.simps [of c p i l])
  qed
qed

lemma Read_stream_reconstructs:
  assumes co: "NetConn co = Some (TCP c)"
    and inc: "incoming c = [b0, b1] @ payload @ rest"
    and L: "unat b0 * 256 + unat b1 = length payload" and pos: "payload \<noteq> []"
    and fit: "length payload \<le> length p" and buf: "2 \<le> length p"
    and ok: "\<forall>k e. Broken k e \<notin> set (rsteps c)"
    and first: "\<forall>j tl. rsteps c = Part j # tl \<longrightarrow> 2 \<le> j"
  shows "\<exists>p1 c1. Read co p = (length payload, None, p1, co\<lparr>NetConn := Some (TCP c1)\<rparr>) \<and>
           take (length payload) p1 = payload \<and> length p1 = length p \<and> incoming c1 = rest"
proof -
  let ?l = "length payload"
  have "0 < (2::nat)" "2 \<le> length [b0, b1]"
    by simp_all
  from tcp_Read_Part [OF ok inc this] obtain m c1
    where rm: "tcp_Read c 2 = (take m [b0, b1], None, c1)"
      and inc1: "incoming c1 = drop m [b0, b1] @ payload @ rest"
      and ok1: "\<forall>k e. Broken k e \<notin> set (rsteps c1)"
      and m0: "rsteps c = [] \<longrightarrow> m = 2"
      and m1: "\<forall>j tl. rsteps c = Part j # tl \<longrightarrow> m = min j 2"
    by blast
  have "m = 2"
  proof (cases "rsteps c")
    case Nil
    with m0 show ?thesis
      by simp
  next
    case (Cons s tl)
    with ok obtain j where "s = Part j"
      by (cases s) auto
    with Cons m1 first show ?thesis
      by (simp add: min_def)
  qed
  with rm inc1
  have r1: "tcp_Read c 2 = ([b0, b1], None, c1)" and inc1': "incoming c1 = payload @ rest"
    by simp_all
  let ?p1 = "store p 0 [b0, b1]"
  have lp1: "length ?p1 = length p"
    using buf by (simp add: store_def)
  from pos fit have k: "0 < ?l" "?l \<le> length payload"
    by simp_all
  from tcp_Read_Part [OF ok1 inc1' k] obtain m2 c2
    where r2: "tcp_Read c1 ?l = (take m2 payload, None, c2)" and m2: "m2 \<le> ?l"
      and inc2: "incoming c2 = drop m2 payload @ rest"
      and ok2: "\<forall>k e. Broken k e \<notin> set (rsteps c2)"
    by blast
  let ?d2 = "take m2 payload"
  let ?p2 = "store ?p1 0 ?d2"
  have ld2: "length ?d2 = m2"
    using m2 by simp
  have lp2: "length ?p2 = length p"
    using lp1 m2 fit by (simp add: store_def)
  have tk: "take m2 ?p2 = take m2 payload"
    using m2 by (simp add: store_def)
  from read_loop_complete [OF ok2 inc2 m2 refl _ tk] lp2 fit obtain c3
    where r3: "read_loop c2 ?p2 m2 ?l = (?l, None, payload @ drop ?l ?p2, c3)"
      and inc3: "incoming c3 = rest"
    by auto
  have "Read co p = (?l, None, payload @ drop ?l ?p2, co\<lparr>NetConn := Some (TCP c3)\<rparr>)"
    using co buf r1 r2 r3 L pos fit unpack_value [of b0 b1] ld2
    by (simp add: Read_def Let_def take2_store)
  moreover have "length (payload @ drop ?l ?p2) = length p"
    using lp2 fit by simp
  ultimately show ?thesis
    using inc3 by auto
qed

subsection \<open>The message layer and the exchange\<close>

text \<open>
  \<^verbatim>\<open>Read\<close> and \<^verbatim>\<open>Write\<close> change the transport only; \<^verbatim>\<open>WriteMsg\<close> sets the time stamp when
  it reaches the write; \<^verbatim>\<open>ReadMsg\<close> sets the round-trip time when, and only when, the
  answer decodes.
\<close>

lemma Read_fields:
  "Read co p = (n, err, p1, co1) \<Longrightarrow>
     rtt co1 = rtt co \<and> t co1 = t co \<and> Conn.TsigSecret co1 = Conn.TsigSecret co \<and>
     tsigRequestMAC co1 = tsigRequestMAC co \<and> UDPSize co1 = UDPSize co"
  by (auto simp: Read_def Let_def simp del: read_loop.simps
      split: option.splits netconn.splits prod.splits if_splits)

lemma Write_fields:
  "Write co p = Inr (n, err, co1) \<Longrightarrow>
     rtt co1 = rtt co \<and> t co1 = t co \<and> Conn.TsigSecret co1 = Conn.TsigSecret co \<and>
     tsigRequestMAC co1 = tsigRequestMAC co \<and> UDPSize co1 = UDPSize co"
  by (auto simp: Write_def Let_def split: option.splits netconn.splits prod.splits if_splits)

lemma WriteMsg_send_fields:
  "WriteMsg_send env co out e0 = Inr (err, co1) \<Longrightarrow>
     rtt co1 = rtt co \<and> Conn.TsigSecret co1 = Conn.TsigSecret co \<and>
     (err = None \<longrightarrow> t co1 = now_write env)"
  by (auto simp: WriteMsg_send_def split: option.splits sum.splits dest!: Write_fields)

lemma WriteMsg_fields:
  "WriteMsg env co m = Inr (err, co1) \<Longrightarrow>
     rtt co1 = rtt co \<and> Conn.TsigSecret co1 = Conn.TsigSecret co \<and>
     (err = None \<longrightarrow> t co1 = now_write env)"
  by (auto simp: WriteMsg_def split: option.splits prod.splits dest!: WriteMsg_send_fields)

lemma ReadMsg_None:
  "ReadMsg env co h = Inr (None, err, co2, h2) \<Longrightarrow> rtt co2 = rtt co \<and> err \<noteq> None"
  by (auto simp: ReadMsg_def Let_def split: option.splits prod.splits if_splits sum.splits
      dest!: Read_fields)

lemma ReadMsg_Some:
  "ReadMsg env co h = Inr (Some r, err, co2, h2) \<Longrightarrow>
     rtt co2 = now_read env - t co \<and> r = length h \<and> length h2 = Suc (length h)"
  by (auto simp: ReadMsg_def Let_def split: option.splits prod.splits if_splits sum.splits
      dest!: Read_fields)

lemma exchange_conn_fields:
  "rtt (exchange_conn env c m nc) = 0 \<and>
   Conn.TsigSecret (exchange_conn env c m nc) = Client.TsigSecret c \<and>
   NetConn (exchange_conn env c m nc) = Some nc"
  by (simp add: exchange_conn_def Let_def split: option.splits)

text \<open>
  C4, as amended. If the dial fails, the write fails, or the read fails without a
  message (\<^verbatim>\<open>ReadMsg\<close> returns \<^verbatim>\<open>nil\<close>: the transport read failed with no bytes, or the
  answer did not decode), \<^verbatim>\<open>exchange\<close> returns no message and a zero round-trip time
  alongside the error. When \<^verbatim>\<open>ReadMsg\<close> returns a message, with or without an error, the
  round-trip time returned is the measured one: the time of the decode minus the time of
  the write.
\<close>

theorem exchange_zero_rtt:
  "(exchange_dial env c a = Inl e \<longrightarrow> exchange env c m a h = Inr ((None, 0, Some e), h)) \<and>
   (exchange_dial env c a = Inr nc \<and>
    WriteMsg env (exchange_conn env c m nc) m = Inr (Some e, co1) \<longrightarrow>
      exchange env c m a h = Inr ((None, 0, Some e), h)) \<and>
   (exchange_dial env c a = Inr nc \<and>
    WriteMsg env (exchange_conn env c m nc) m = Inr (None, co1) \<and>
    ReadMsg env co1 h = Inr (None, err, co2, h2) \<longrightarrow>
      exchange env c m a h = Inr ((None, 0, err), h2) \<and> err \<noteq> None) \<and>
   (exchange_dial env c a = Inr nc \<and>
    WriteMsg env (exchange_conn env c m nc) m = Inr (None, co1) \<and>
    ReadMsg env co1 h = Inr (Some r, err, co2, h2) \<longrightarrow>
      exchange env c m a h = Inr ((Some r, now_read env - now_write env, err), h2))"
proof (intro conjI impI)
  assume "exchange_dial env c a = Inl e"
  then show "exchange env c m a h = Inr ((None, 0, Some e), h)"
    by (simp add: exchange_def)
next
  assume "exchange_dial env c a = Inr nc \<and>
    WriteMsg env (exchange_conn env c m nc) m = Inr (Some e, co1)"
  then show "exchange env c m a h = Inr ((None, 0, Some e), h)"
    by (simp add: exchange_def)
next
  assume a: "exchange_dial env c a = Inr nc \<and>
    WriteMsg env (exchange_conn env c m nc) m = Inr (None, co1) \<and>
    ReadMsg env co1 h = Inr (None, err, co2, h2)"
  then have "rtt co1 = 0"
    using WriteMsg_fields [of env "exchange_conn env c m nc" m None co1]
    by (simp add: exchange_conn_fields)
  with a ReadMsg_None [of env co1 h err co2 h2] have "rtt co2 = 0" and e: "err \<noteq> None"
    by simp_all
  with a show "exchange env c m a h = Inr ((None, 0, err), h2)"
    by (simp add: exchange_def)
  from e show "err \<noteq> None" .
next
  assume a: "exchange_dial env c a = Inr nc \<and>
    WriteMsg env (exchange_conn env c m nc) m = Inr (None, co1) \<and>
    ReadMsg env co1 h = Inr (Some r, err, co2, h2)"
  then have "t co1 = now_write env"
    using WriteMsg_fields [of env "exchange_conn env c m nc" m None co1]
    by simp
  with a ReadMsg_Some [of env co1 h r err co2 h2] have "rtt co2 = now_read env - now_write env"
    by simp
  with a show "exchange env c m a h = Inr ((Some r, now_read env - now_write env, err), h2)"
    by (simp add: exchange_def)
qed

text \<open>
  C4 as stated fails: the answer decodes, it carries a TSIG record whose owner has no
  secret, so the read returns \<^verbatim>\<open>ErrSecret\<close>, and the round-trip time returned with that
  error is 5, not zero (line 149 sets it before the TSIG test).
\<close>

theorem exchange_read_error_with_rtt:
  "exchange env0 (client0 False Map.empty) (query0 7 [9, 9]) ''192.0.2.1:53'' [] =
     Inr ((Some 0, 5, Some ErrSecret), [\<lparr>Id = 0, Question = [], Body = [1, 1]\<rparr>])"
  by (simp add: exchange_def exchange_dial_def exchange_conn_def env0_def client0_def
      query0_def WriteMsg_def WriteMsg_send_def Write_def tcp_Write_def packUint16_def
      ReadMsg_def ReadMsg_buf_def Read_def tcp_Read_def store_def unpackUint16_def
      stream_def dnsTimeout_def zeroMsg_def)

text \<open>
  The amended C4 at a failed dial, at a failed write, at a read that fails at end of
  file, and at an answer that decodes and fails authentication.
\<close>

theorem exchange_zero_rtt_witness:
  "exchange env0 (client0 False Map.empty) (query0 7 [9, 9]) [] [] =
     Inr ((None, 0, Some (NetError ''dial'')), []) \<and>
   exchange env0 (client0 False Map.empty) (query0 7 [1, 9]) ''192.0.2.1:53'' [] =
     Inr ((None, 0, Some ErrSecret), []) \<and>
   exchange (env0\<lparr>dial := \<lambda>network address timeout. Inr (TCP (stream [] [] []))\<rparr>)
       (client0 False Map.empty) (query0 7 [9, 9]) ''192.0.2.1:53'' [] =
     Inr ((None, 0, Some (NetError ''EOF'')), [zeroMsg]) \<and>
   exchange env0 (client0 False Map.empty) (query0 7 [9, 9]) ''192.0.2.1:53'' [] =
     Inr ((Some 0, 105 - 100, Some ErrSecret), [\<lparr>Id = 0, Question = [], Body = [1, 1]\<rparr>])"
proof -
  let ?c = "client0 False Map.empty"
  let ?a = "''192.0.2.1:53''"
  let ?nc = "TCP (stream [0, 2, 1, 1] [] [])"
  let ?env1 = "env0\<lparr>dial := \<lambda>network address timeout. Inr (TCP (stream [] [] []))\<rparr>"
  have d1: "exchange_dial env0 ?c [] = Inl (NetError ''dial'')"
    by (simp add: exchange_dial_def env0_def client0_def)
  have d2: "exchange_dial env0 ?c ?a = Inr ?nc"
    by (simp add: exchange_dial_def env0_def client0_def)
  have d3: "exchange_dial ?env1 ?c ?a = Inr (TCP (stream [] [] []))"
    by (simp add: exchange_dial_def env0_def client0_def)
  have w2: "WriteMsg env0 (exchange_conn env0 ?c (query0 7 [1, 9]) ?nc) (query0 7 [1, 9]) =
              Inr (Some ErrSecret, newConn ?nc)"
    by (simp add: WriteMsg_def exchange_conn_def env0_def client0_def query0_def newConn_def)
  have w3: "WriteMsg ?env1 (exchange_conn ?env1 ?c (query0 7 [9, 9]) (TCP (stream [] [] [])))
              (query0 7 [9, 9]) =
              Inr (None, newConn (TCP (stream [] [] []\<lparr>wire := [0, 2, 9, 9]\<rparr>))\<lparr>t := 100\<rparr>)"
    by (simp add: WriteMsg_def WriteMsg_send_def Write_def tcp_Write_def packUint16_def
        exchange_conn_def env0_def client0_def query0_def newConn_def stream_def)
  have r3: "ReadMsg ?env1 (newConn (TCP (stream [] [] []\<lparr>wire := [0, 2, 9, 9]\<rparr>))\<lparr>t := 100\<rparr>) [] =
              Inr (None, Some (NetError ''EOF''),
                   newConn (TCP (stream [] [] []\<lparr>wire := [0, 2, 9, 9]\<rparr>))\<lparr>t := 100\<rparr>, [zeroMsg])"
    by (simp add: ReadMsg_def ReadMsg_buf_def Read_def tcp_Read_def store_def env0_def
        newConn_def stream_def)
  have w4: "WriteMsg env0 (exchange_conn env0 ?c (query0 7 [9, 9]) ?nc) (query0 7 [9, 9]) =
              Inr (None, newConn (TCP (stream [0, 2, 1, 1] [] []\<lparr>wire := [0, 2, 9, 9]\<rparr>))\<lparr>t := 100\<rparr>)"
    by (simp add: WriteMsg_def WriteMsg_send_def Write_def tcp_Write_def packUint16_def
        exchange_conn_def env0_def client0_def query0_def newConn_def stream_def)
  have r4: "ReadMsg env0 (newConn (TCP (stream [0, 2, 1, 1] [] []\<lparr>wire := [0, 2, 9, 9]\<rparr>))\<lparr>t := 100\<rparr>) [] =
              Inr (Some 0, Some ErrSecret,
                   newConn (TCP (stream [] [] []\<lparr>wire := [0, 2, 9, 9]\<rparr>))\<lparr>rtt := 5, t := 100\<rparr>,
                   [\<lparr>Id = 0, Question = [], Body = [1, 1]\<rparr>])"
    by (simp add: ReadMsg_def ReadMsg_buf_def Read_def tcp_Read_def store_def unpackUint16_def
        env0_def newConn_def stream_def zeroMsg_def)
  have "exchange env0 ?c (query0 7 [9, 9]) [] [] = Inr ((None, 0, Some (NetError ''dial'')), [])"
    using exchange_zero_rtt [where env = env0 and c = ?c and a = "[]"
        and e = "NetError ''dial''" and m = "query0 7 [9, 9]" and h = "[]"] d1
    by simp
  moreover
  have "exchange env0 ?c (query0 7 [1, 9]) ?a [] = Inr ((None, 0, Some ErrSecret), [])"
    using exchange_zero_rtt [where env = env0 and c = ?c and a = ?a and nc = ?nc
        and e = ErrSecret and m = "query0 7 [1, 9]" and h = "[]"
        and ?co1.0 = "newConn ?nc"] d2 w2
    by simp
  moreover
  have "exchange ?env1 ?c (query0 7 [9, 9]) ?a [] =
          Inr ((None, 0, Some (NetError ''EOF'')), [zeroMsg])"
    using exchange_zero_rtt [where env = ?env1 and c = ?c and a = ?a
        and nc = "TCP (stream [] [] [])" and m = "query0 7 [9, 9]" and h = "[]"
        and ?co1.0 = "newConn (TCP (stream [] [] []\<lparr>wire := [0, 2, 9, 9]\<rparr>))\<lparr>t := 100\<rparr>"
        and err = "Some (NetError ''EOF'')" and ?h2.0 = "[zeroMsg]"
        and ?co2.0 = "newConn (TCP (stream [] [] []\<lparr>wire := [0, 2, 9, 9]\<rparr>))\<lparr>t := 100\<rparr>"]
      d3 w3 r3
    by simp
  moreover
  have "exchange env0 ?c (query0 7 [9, 9]) ?a [] =
          Inr ((Some 0, 105 - 100, Some ErrSecret), [\<lparr>Id = 0, Question = [], Body = [1, 1]\<rparr>])"
    using exchange_zero_rtt [where env = env0 and c = ?c and a = ?a
        and nc = ?nc and m = "query0 7 [9, 9]" and h = "[]" and r = 0
        and ?co1.0 = "newConn (TCP (stream [0, 2, 1, 1] [] []\<lparr>wire := [0, 2, 9, 9]\<rparr>))\<lparr>t := 100\<rparr>"
        and err = "Some ErrSecret" and ?h2.0 = "[\<lparr>Id = 0, Question = [], Body = [1, 1]\<rparr>]"
        and ?co2.0 = "newConn (TCP (stream [] [] []\<lparr>wire := [0, 2, 9, 9]\<rparr>))\<lparr>rtt := 5, t := 100\<rparr>"]
      d2 w4 r4
    by (simp add: env0_def)
  ultimately show ?thesis
    by simp
qed

text \<open>
  C7. For a message that carries a TSIG record whose owner name has no entry in the
  secret mapping, \<^verbatim>\<open>WriteMsg\<close> returns \<^verbatim>\<open>ErrSecret\<close> and leaves the connection as it was
  (nothing written, no time stamp, no request MAC), whatever the encoder and the signer
  are: neither is consulted. \<^verbatim>\<open>ReadMsg\<close>, once the bytes read decode to such a message,
  returns the message and \<^verbatim>\<open>ErrSecret\<close>, whatever the verifier is: it is not consulted.
\<close>

theorem unknown_secret:
  "(IsTsig env m = Some name \<and> Conn.TsigSecret co name = None \<longrightarrow>
      (\<forall>pk gen. WriteMsg (env\<lparr>Pack := pk, TsigGenerate := gen\<rparr>) co m =
                  Inr (Some ErrSecret, co))) \<and>
   (Read co (ReadMsg_buf env co) = (n, err, p1, co1) \<and> \<not> (err \<noteq> None \<and> n = 0) \<and>
    n \<le> length (ReadMsg_buf env co) \<and> Unpack env (take n p1) = Inr msg \<and>
    IsTsig env msg = Some name \<and> Conn.TsigSecret co name = None \<longrightarrow>
      (\<forall>v. ReadMsg (env\<lparr>TsigVerify := v\<rparr>) co h =
             Inr (Some (length h), Some ErrSecret, co1\<lparr>rtt := now_read env - t co1\<rparr>,
                  h @ [msg])))"
proof (intro conjI impI allI)
  fix pk gen
  assume "IsTsig env m = Some name \<and> Conn.TsigSecret co name = None"
  then show "WriteMsg (env\<lparr>Pack := pk, TsigGenerate := gen\<rparr>) co m = Inr (Some ErrSecret, co)"
    by (simp add: WriteMsg_def)
next
  fix v
  assume a: "Read co (ReadMsg_buf env co) = (n, err, p1, co1) \<and> \<not> (err \<noteq> None \<and> n = 0) \<and>
    n \<le> length (ReadMsg_buf env co) \<and> Unpack env (take n p1) = Inr msg \<and>
    IsTsig env msg = Some name \<and> Conn.TsigSecret co name = None"
  have buf: "ReadMsg_buf (env\<lparr>TsigVerify := v\<rparr>) co = ReadMsg_buf env co"
    by (simp add: ReadMsg_buf_def split: option.split netconn.split)
  from a Read_fields [of co "ReadMsg_buf env co" n err p1 co1]
  have sec: "Conn.TsigSecret co1 name = None"
    by simp
  from a sec show "ReadMsg (env\<lparr>TsigVerify := v\<rparr>) co h =
      Inr (Some (length h), Some ErrSecret, co1\<lparr>rtt := now_read env - t co1\<rparr>, h @ [msg])"
    by (auto simp: ReadMsg_def buf Let_def)
qed

text \<open>C7 at a signed query and at a signed answer, with an empty secret mapping.\<close>

theorem unknown_secret_witness:
  "WriteMsg env0 (newConn (TCP (stream [0, 2, 1, 1] [] []))) (query0 7 [1, 9]) =
     Inr (Some ErrSecret, newConn (TCP (stream [0, 2, 1, 1] [] []))) \<and>
   ReadMsg env0 (newConn (TCP (stream [0, 2, 1, 1] [] []))) [] =
     Inr (Some 0, Some ErrSecret, newConn (TCP (stream [] [] []))\<lparr>rtt := 105\<rparr>,
          [\<lparr>Id = 0, Question = [], Body = [1, 1]\<rparr>])"
proof -
  let ?co = "newConn (TCP (stream [0, 2, 1, 1] [] []))"
  let ?msg = "\<lparr>Id = 0, Question = [], Body = [1, 1]\<rparr>"
  have e1: "env0\<lparr>Pack := Pack env0, TsigGenerate := TsigGenerate env0\<rparr> = env0"
    and e2: "env0\<lparr>TsigVerify := TsigVerify env0\<rparr> = env0"
    by simp_all
  have rd: "Read ?co (ReadMsg_buf env0 ?co) =
      (2, None, [1, 1] @ replicate 65533 0, newConn (TCP (stream [] [] [])))"
    by (simp add: ReadMsg_buf_def Read_def tcp_Read_def store_def unpackUint16_def env0_def
        newConn_def stream_def)
  have h1: "IsTsig env0 (query0 7 [1, 9]) = Some ''key.'' \<and> Conn.TsigSecret ?co ''key.'' = None"
    by (simp add: env0_def query0_def newConn_def)
  have h2: "Read ?co (ReadMsg_buf env0 ?co) =
      (2, None, [1, 1] @ replicate 65533 0, newConn (TCP (stream [] [] []))) \<and>
    \<not> (None \<noteq> (None :: error option) \<and> (2::nat) = 0) \<and> 2 \<le> length (ReadMsg_buf env0 ?co) \<and>
    Unpack env0 (take 2 ([1, 1] @ replicate 65533 0)) = Inr ?msg \<and>
    IsTsig env0 ?msg = Some ''key.'' \<and> Conn.TsigSecret ?co ''key.'' = None"
    using rd by (simp add: env0_def newConn_def ReadMsg_buf_def)
  note th = unknown_secret [where env = env0 and co = ?co and name = "''key.''"
      and m = "query0 7 [1, 9]" and n = 2 and err = None
      and ?p1.0 = "[1, 1] @ replicate 65533 0" and ?co1.0 = "newConn (TCP (stream [] [] []))"
      and msg = ?msg and h = "[]"]
  from th h1 have "WriteMsg (env0\<lparr>Pack := Pack env0, TsigGenerate := TsigGenerate env0\<rparr>) ?co
      (query0 7 [1, 9]) = Inr (Some ErrSecret, ?co)"
    by blast
  moreover from th h2 have "ReadMsg (env0\<lparr>TsigVerify := TsigVerify env0\<rparr>) ?co [] =
      Inr (Some (length ([] :: heap)), Some ErrSecret,
           newConn (TCP (stream [] [] []))\<lparr>rtt := now_read env0 - t (newConn (TCP (stream [] [] [])))\<rparr>,
           [] @ [?msg])"
    by blast
  ultimately show ?thesis
    unfolding e1 e2 by (simp add: env0_def newConn_def)
qed

subsection \<open>Deduplication\<close>

text \<open>
  C9. With \<^verbatim>\<open>SingleInflight\<close> set, \<^verbatim>\<open>Exchange\<close> indexes the first question before anything
  else: for every query whose question section is empty it panics with an index out of
  range. Without \<^verbatim>\<open>SingleInflight\<close> it is \<^verbatim>\<open>exchange\<close>, which does not index the section.
\<close>

theorem Exchange_empty_question:
  "(SingleInflight c \<and> Question m = [] \<longrightarrow> Exchange env c m a h = Inl IndexOutOfRange) \<and>
   (\<not> SingleInflight c \<longrightarrow> Exchange env c m a h = exchange env c m a h)"
  by (simp add: Exchange_def)

text \<open>C9 at a query without a question, with and without deduplication.\<close>

theorem Exchange_empty_question_witness:
  "Exchange env0 (client0 True Map.empty) \<lparr>Id = 7, Question = [], Body = [9, 9]\<rparr>
     ''192.0.2.1:53'' [] = Inl IndexOutOfRange \<and>
   Exchange env0 (client0 False Map.empty) \<lparr>Id = 7, Question = [], Body = [9, 9]\<rparr>
     ''192.0.2.1:53'' [] =
     exchange env0 (client0 False Map.empty) \<lparr>Id = 7, Question = [], Body = [9, 9]\<rparr>
       ''192.0.2.1:53'' []"
  using Exchange_empty_question [of "client0 True Map.empty"
      "\<lparr>Id = 7, Question = [], Body = [9, 9]\<rparr>" env0 "''192.0.2.1:53''" "[]"]
    Exchange_empty_question [of "client0 False Map.empty"
      "\<lparr>Id = 7, Question = [], Body = [9, 9]\<rparr>" env0 "''192.0.2.1:53''" "[]"]
  by (simp add: client0_def)

text \<open>
  C8. For every query with at least one question, the key is the first question's name
  followed by the symbolic name of its type and the symbolic name of its class, each
  replaced by \<open>nop\<close> when the table has no name for it; with \<^verbatim>\<open>SingleInflight\<close> set,
  \<^verbatim>\<open>Exchange\<close> hands the coordinator that key, with the exchange as the work to run.
  Two queries with equal keys are duplicates whatever else differs: when a call for the
  key is in flight, each receives that call's reply, marked shared, and neither runs its
  own exchange.
\<close>

theorem Exchange_query_key:
  "(Question m = q # qs \<longrightarrow>
      spec_query_key env m =
        Some (Name q @
              (case TypeToString env (Qtype q) of Some s \<Rightarrow> s | None \<Rightarrow> ''nop'') @
              (case ClassToString env (Qclass q) of Some s \<Rightarrow> s | None \<Rightarrow> ''nop''))) \<and>
   (SingleInflight c \<and> spec_query_key env m = Some k \<longrightarrow>
      Exchange env c m a h = Exchange_deliver (group c k (exchange env c m a) h)) \<and>
   (SingleInflight c \<and> group c = Do calls \<and> spec_query_key env m = Some k \<and>
    spec_query_key env m' = Some k \<and> calls k = Some rep \<longrightarrow>
      Exchange env c m a h = Exchange_deliver (Inr ((rep, True), h)) \<and>
      Exchange env c m' a' h = Exchange_deliver (Inr ((rep, True), h)))"
  by (auto simp: Exchange_def spec_query_key_def symbolic_def Do_def Let_def split: list.splits)

text \<open>
  C8 at two queries for the same name, type and class that differ in identifier, body
  and address, with a call for their key in flight; and the key when the type has no
  symbolic name.
\<close>

theorem Exchange_query_key_witness:
  "spec_query_key env0 (query0 1 [9, 9]) = Some ''example.org.AIN'' \<and>
   spec_query_key (env0\<lparr>TypeToString := Map.empty\<rparr>) (query0 1 [9, 9]) = Some ''example.org.nopIN'' \<and>
   Exchange env0 (client0 True [''example.org.AIN'' \<mapsto> (None, 0, Some (NetError ''busy''))])
     (query0 1 [9, 9]) ''192.0.2.1:53'' [] = Inr ((None, 0, Some (NetError ''busy'')), []) \<and>
   Exchange env0 (client0 True [''example.org.AIN'' \<mapsto> (None, 0, Some (NetError ''busy''))])
     (query0 2 [8, 8, 8]) ''192.0.2.2:53'' [] = Inr ((None, 0, Some (NetError ''busy'')), [])"
proof -
  let ?q = "\<lparr>Name = ''example.org.'', Qtype = 1, Qclass = 1\<rparr>"
  let ?calls = "[''example.org.AIN'' \<mapsto> (None, 0, Some (NetError ''busy''))]"
  let ?c = "client0 True ?calls"
  have q1: "Question (query0 i bs) = ?q # []" for i bs
    by (simp add: query0_def)
  have k1: "spec_query_key env0 (query0 i bs) = Some ''example.org.AIN''" for i bs
    using Exchange_query_key [where m = "query0 i bs" and q = ?q and qs = "[]" and env = env0] q1
    by (simp add: env0_def)
  have k2: "spec_query_key (env0\<lparr>TypeToString := Map.empty\<rparr>) (query0 1 [9, 9]) =
              Some ''example.org.nopIN''"
    using Exchange_query_key [where m = "query0 1 [9, 9]" and q = ?q and qs = "[]"
        and env = "env0\<lparr>TypeToString := Map.empty\<rparr>"] q1
    by (simp add: env0_def)
  have hyp: "SingleInflight ?c \<and> group ?c = Do ?calls \<and>
      spec_query_key env0 (query0 1 [9, 9]) = Some ''example.org.AIN'' \<and>
      spec_query_key env0 (query0 2 [8, 8, 8]) = Some ''example.org.AIN'' \<and>
      ?calls ''example.org.AIN'' = Some (None, 0, Some (NetError ''busy''))"
    using k1 by (simp add: client0_def)
  note th = Exchange_query_key [where c = ?c and calls = ?calls and env = env0
      and m = "query0 1 [9, 9]" and m' = "query0 2 [8, 8, 8]" and k = "''example.org.AIN''"
      and rep = "(None, 0, Some (NetError ''busy''))" and a = "''192.0.2.1:53''"
      and a' = "''192.0.2.2:53''" and h = "[]"]
  from th hyp have
    "Exchange env0 ?c (query0 1 [9, 9]) ''192.0.2.1:53'' [] =
       Exchange_deliver (Inr (((None, 0, Some (NetError ''busy'')), True), [])) \<and>
     Exchange env0 ?c (query0 2 [8, 8, 8]) ''192.0.2.2:53'' [] =
       Exchange_deliver (Inr (((None, 0, Some (NetError ''busy'')), True), []))"
    by blast
  with k1 k2 show ?thesis
    by (simp add: Exchange_deliver_def)
qed

text \<open>
  What a caller makes of a shared reply. Without an error the message returned is a new
  message of the store, equal to the shared one, and the store is otherwise as it was.
  With an error the message returned is the shared one itself.
\<close>

lemma Exchange_deliver_shared_copy:
  "Exchange_deliver (Inr (((Some a0, rt, None), True), h1)) =
     Inr ((Some (length h1), rt, None), h1 @ [h1 ! a0])"
  by (simp add: Exchange_deliver_def copy_def)

lemma Exchange_deliver_error:
  "Exchange_deliver (Inr (((r, rt, Some e), shared), h1)) = Inr ((r, rt, Some e), h1)"
  by (simp add: Exchange_deliver_def)

text \<open>
  C1 fails on the code. A call is in flight for the key of two queries; its work has
  completed with \<^verbatim>\<open>ErrSecret\<close> alongside the decoded message at address 0, as \<^verbatim>\<open>ReadMsg\<close>
  returns it at line 152. Both callers receive address 0, the very message of the call
  in flight, and the store still holds one message: line 80 returns before the copy of
  line 83.
\<close>

theorem Exchange_shared_error_aliases:
  "Exchange env0 (client0 True [''example.org.AIN'' \<mapsto> (Some 0, 5, Some ErrSecret)])
     (query0 1 [9, 9]) ''192.0.2.1:53'' [\<lparr>Id = 0, Question = [], Body = [1, 1]\<rparr>] =
     Inr ((Some 0, 5, Some ErrSecret), [\<lparr>Id = 0, Question = [], Body = [1, 1]\<rparr>]) \<and>
   Exchange env0 (client0 True [''example.org.AIN'' \<mapsto> (Some 0, 5, Some ErrSecret)])
     (query0 2 [9, 9]) ''192.0.2.1:53'' [\<lparr>Id = 0, Question = [], Body = [1, 1]\<rparr>] =
     Inr ((Some 0, 5, Some ErrSecret), [\<lparr>Id = 0, Question = [], Body = [1, 1]\<rparr>])"
  by (simp add: Exchange_def Exchange_deliver_def Do_def env0_def client0_def query0_def)

text \<open>The same call completing without an error: the caller receives a copy, at a new address.\<close>

theorem Exchange_shared_success_copies:
  "Exchange env0 (client0 True [''example.org.AIN'' \<mapsto> (Some 0, 5, None)])
     (query0 1 [9, 9]) ''192.0.2.1:53'' [\<lparr>Id = 0, Question = [], Body = [1, 1]\<rparr>] =
     Inr ((Some 1, 5, None),
          [\<lparr>Id = 0, Question = [], Body = [1, 1]\<rparr>, \<lparr>Id = 0, Question = [], Body = [1, 1]\<rparr>])"
  by (simp add: Exchange_def Exchange_deliver_def Do_def copy_def env0_def client0_def query0_def)

end
